theory Spec2Isabelle
  imports Complex_Main "HOL-Library.Multiset"
begin

section \<open>Operands of a linear combination\<close>

text \<open>
  A wire label is a natural number here (PennyLane also allows strings; nothing below
  depends on more than equality and a total order of the labels).
\<close>

type_synonym wire = nat

text \<open>
  An atomic observable as the core reads it: its \<open>name\<close>, the wires it acts on, its
  parameters in stringified form, and the hyperparameter \<open>index\<close> that only \<open>GellMann\<close>
  uses.
\<close>

datatype observable =
  Observable (name: string) (wires: "wire list") (parameters: "string list") (hyper_index: string)

text \<open>
  Modelled from the spec: the classes \<^verbatim>\<open>Observable\<close> and \<^verbatim>\<open>Tensor\<close> (module
  \<^verbatim>\<open>pennylane.operation\<close>) are absent. An operand of a term is an atomic observable or a
  tensor product of atomic observables (section 3); a tensor has at least one factor (its
  first factor and the list of the others).
\<close>

datatype operand = Atomic observable | Tensor observable "observable list"

datatype error = ValueError | IndexError | TypeError | MatrixUndefinedError

text \<open>\<^verbatim>\<open>Tensor(op).obs\<close>: the factor list, an atomic observable being its own only factor.\<close>

fun obs :: "operand \<Rightarrow> observable list" where
  "obs (Atomic a) = [a]"
| "obs (Tensor a as) = a # as"

text \<open>\<^verbatim>\<open>op if isinstance(op, Tensor) else Tensor(op)\<close>\<close>

fun as_tensor :: "operand \<Rightarrow> operand" where
  "as_tensor (Atomic a) = Tensor a []"
| "as_tensor (Tensor a as) = Tensor a as"

text \<open>
  Modelled from the spec: \<^verbatim>\<open>Wires.all_wires\<close> (module \<^verbatim>\<open>pennylane.wires\<close>) is the union of
  the given wire sequences with duplicates removed, in order of first occurrence, sorted on
  request (section 3, ``the sorted union of all operand wire sets (duplicates removed)'').
\<close>

fun all_wires_acc :: "wire list \<Rightarrow> wire list \<Rightarrow> wire list" where
  "all_wires_acc combined [] = combined"
| "all_wires_acc combined (w # ws) =
     (if w \<in> set combined then all_wires_acc combined ws
      else all_wires_acc (combined @ [w]) ws)"

definition all_wires :: "wire list list \<Rightarrow> bool \<Rightarrow> wire list" where
  "all_wires list_of_wires sort_flag =
     (let combined = all_wires_acc [] (concat list_of_wires)
      in if sort_flag then sort combined else combined)"

text \<open>\<^verbatim>\<open>op.wires\<close> of an operand: the wires of its factors, each once.\<close>

definition op_wires :: "operand \<Rightarrow> wire list" where
  "op_wires op = all_wires (map wires (obs op)) False"

text \<open>
  Modelled from the spec: \<^verbatim>\<open>Tensor.non_identity_obs\<close>, \<^verbatim>\<open>Tensor.prune\<close> and
  \<^verbatim>\<open>Tensor.compare\<close> (module \<^verbatim>\<open>pennylane.operation\<close>). Section 3 gives the identity key of
  an atomic operand as (name, wires, stringified parameters) and of a composite as the
  unordered set of its factors' keys; two operands are structurally equal iff the keys are
  set-equal, an atomic operand equals its single-factor composite, and identity factors
  are pruned (section 4.3).
\<close>

definition non_identity_obs :: "operand \<Rightarrow> observable list" where
  "non_identity_obs op = filter (\<lambda>ob. name ob \<noteq> ''Identity'') (obs op)"

type_synonym atomic_key = "string \<times> wire list \<times> string list"

definition atomic_key :: "observable \<Rightarrow> atomic_key" where
  "atomic_key ob = (name ob, wires ob, parameters ob)"

definition identity_key :: "operand \<Rightarrow> atomic_key set" where
  "identity_key op = set (map atomic_key (non_identity_obs op))"

definition structurally_equal :: "operand \<Rightarrow> operand \<Rightarrow> bool" where
  "structurally_equal a b = (identity_key a = identity_key b)"

text \<open>
  Modelled from the spec: \<^verbatim>\<open>Tensor.prune\<close> is absent. Pruning drops the identity factors
  (section 4.3); what is left is the single remaining factor itself, or the tensor of the
  remaining factors, or (nothing being left) one identity on the operand's first wire.
\<close>

definition prune :: "operand \<Rightarrow> operand" where
  "prune op =
     (case non_identity_obs op of
        [] \<Rightarrow> Atomic (Observable ''Identity'' (take 1 (op_wires op)) [] [])
      | [ob] \<Rightarrow> Atomic ob
      | ob # rest \<Rightarrow> Tensor ob rest)"

section \<open>The term store\<close>

text \<open>
  The instance attributes \<^verbatim>\<open>_coeffs\<close>, \<^verbatim>\<open>_ops\<close>, \<^verbatim>\<open>_wires\<close> and \<^verbatim>\<open>_grouping_indices\<close>, and
  the attribute \<^verbatim>\<open>operands\<close>. The constructor binds \<^verbatim>\<open>operands\<close> to the generator
  \<^verbatim>\<open>(qml.s_prod(c, op) for c, op in zip(coeffs, ops))\<close> over its two arguments; a generator
  yields each of its items once, so the field \<open>operands\<close> holds the terms that are still to
  come. Coefficients are real numbers: exact arithmetic stands for the floats, so a sum
  that rounding moves across the tolerance of \<open>isclose\<close> is outside the development. The
  entry \<^verbatim>\<open>"ops"\<close> of the hyperparameters, which \<^verbatim>\<open>simplify\<close> also assigns, is read by nothing
  below and is left out.
\<close>

record store =
  coeffs :: "real list"
  ops :: "operand list"
  lc_wires :: "wire list"
  grouping_indices :: "nat list list option"
  operands :: "(real \<times> operand) list"

text \<open>\<^verbatim>\<open>np.isclose(a, b)\<close> with numpy's default tolerances, on the exact numbers.\<close>

definition rtol :: real where "rtol = 1 / 10 ^ 5"
definition atol :: real where "atol = 1 / 10 ^ 8"

definition isclose :: "real \<Rightarrow> real \<Rightarrow> bool" where
  "isclose a b = (\<bar>a - b\<bar> \<le> atol + rtol * \<bar>b\<bar>)"

subsection \<open>The inherited data\<close>

text \<open>
  Modelled from the spec: the class \<^verbatim>\<open>CompositeOp\<close> (module \<^verbatim>\<open>composite\<close>), from which the
  store inherits its iteration and the property \<^verbatim>\<open>data\<close>, and the class \<^verbatim>\<open>SProd\<close> of the terms
  that \<^verbatim>\<open>qml.s_prod\<close> builds are absent, and the spec gives the store its coefficient
  sequence only (section 3). The model has what the two classes do with the attribute
  \<^verbatim>\<open>operands\<close> that the constructor sets up. Iterating the store takes the next terms off
  that one generator. The data of a term is its scalar followed by the data of its
  operand, and a term has one parameter more than its operand. Reading \<^verbatim>\<open>data\<close> collects the
  data of all the terms still to come, and leaves none. Assigning to \<^verbatim>\<open>data\<close> hands every
  term still to come the next entries of the new tuple, as many as the term has
  parameters, the first of them as its scalar: this reads \<^verbatim>\<open>new_data[0]\<close>, an \<^verbatim>\<open>IndexError\<close>
  once the tuple is used up, and the terms taken so far are gone. An assignment that
  reaches a term whose operand has parameters of its own also overwrites those with the
  entries that follow the scalar; the parameters of an operand are kept here in their
  stringified form only, and this overwriting is not traced. The theorems that depend on
  an assignment reaching a term ask for operands without parameters.
\<close>

datatype datum = Coefficient real | Parameter string

definition num_params :: "operand \<Rightarrow> nat" where
  "num_params op = length (concat (map parameters (obs op)))"

definition term_data :: "real \<times> operand \<Rightarrow> datum list" where
  "term_data t = Coefficient (fst t) # map Parameter (concat (map parameters (obs (snd t))))"

definition get_data :: "store \<Rightarrow> datum list \<times> store" where
  "get_data S = (concat (map term_data (operands S)), S\<lparr> operands := [] \<rparr>)"

fun set_data :: "real list \<Rightarrow> (real \<times> operand) list \<Rightarrow> error option \<times> (real \<times> operand) list" where
  "set_data new_data [] = (None, [])"
| "set_data new_data (t # rest) =
     (if new_data = [] then (Some IndexError, rest)
      else set_data (drop (1 + num_params (snd t)) new_data) rest)"

subsection \<open>simplify\<close>

text \<open>\<^verbatim>\<open>next((j for j, o in enumerate(new_ops) if op.compare(o)), None)\<close>\<close>

fun find_ind :: "operand \<Rightarrow> operand list \<Rightarrow> nat option" where
  "find_ind op [] = None"
| "find_ind op (o1 # new_ops) =
     (if structurally_equal op o1 then Some 0 else map_option Suc (find_ind op new_ops))"

text \<open>\<^verbatim>\<open>del xs[i]\<close>\<close>

definition del_at :: "nat \<Rightarrow> 'a list \<Rightarrow> 'a list" where
  "del_at i xs = take i xs @ drop (Suc i) xs"

text \<open>
  One round of the loop of \<^verbatim>\<open>simplify\<close>, on the pair \<open>(new_coeffs, new_ops)\<close>. The two
  lists always have the same length, so the index found in \<open>new_ops\<close> is in range for
  \<open>new_coeffs\<close> (lemma \<open>find_ind_Some\<close>).
\<close>

definition simplify_step ::
  "real list \<times> operand list \<Rightarrow> real \<times> operand \<Rightarrow> real list \<times> operand list" where
  "simplify_step st t =
     (case st of (new_coeffs, new_ops) \<Rightarrow> case t of (c, op0) \<Rightarrow>
        (let op = as_tensor op0 in
         case find_ind op new_ops of
           Some ind \<Rightarrow>
             (let new_coeffs' = new_coeffs[ind := new_coeffs ! ind + c] in
              if isclose (new_coeffs' ! ind) 0
              then (del_at ind new_coeffs', del_at ind new_ops)
              else (new_coeffs', new_ops))
         | None \<Rightarrow> (new_coeffs @ [c], new_ops @ [prune op])))"

definition simplify_loop :: "(real \<times> operand) list \<Rightarrow> real list \<times> operand list" where
  "simplify_loop ts = foldl simplify_step ([], []) ts"

text \<open>
  \<^verbatim>\<open>simplify\<close> changes the store it is called on: the result is the error raised, if any,
  and the store as the call leaves it. The loop reads \<^verbatim>\<open>self.coeffs[i]\<close> for every index of
  \<^verbatim>\<open>self.ops\<close>, which raises when there are fewer coefficients than operands. After the loop
  comes \<^verbatim>\<open>self.data = tuple(new_coeffs)\<close>, and only then are the attributes assigned: when
  the assignment to \<^verbatim>\<open>data\<close> raises, the store keeps its coefficients, operands, wires and
  grouping cache, and has lost the terms the assignment took off the generator.
\<close>

definition simplify :: "store \<Rightarrow> error option \<times> store" where
  "simplify S =
     (if length (coeffs S) < length (ops S) then (Some IndexError, S)
      else
        (case simplify_loop (zip (coeffs S) (ops S)) of (new_coeffs, new_ops) \<Rightarrow>
           (case set_data new_coeffs (operands S) of
              (Some e, rest) \<Rightarrow> (Some e, S\<lparr> operands := rest \<rparr>)
            | (None, rest) \<Rightarrow>
                (None,
                 \<lparr> coeffs = new_coeffs, ops = new_ops,
                   lc_wires = all_wires (map op_wires new_ops) True,
                   grouping_indices = None, operands = rest \<rparr>))))"

subsection \<open>Construction\<close>

text \<open>
  \<^verbatim>\<open>__init__(coeffs, ops, simplify, grouping_type, method)\<close>. The partitioner
  \<^verbatim>\<open>qml.pauli.group_ops\<close> for the requested relation and heuristic is the argument
  \<open>grouping\<close> (\<open>None\<close> for \<^verbatim>\<open>grouping_type=None\<close>): it maps the operand words to the ordered
  sequence of groups of words. Every element of \<open>ops\<close> is an observable by its type. The
  generator \<^verbatim>\<open>operands\<close> is set up before \<^verbatim>\<open>simplify\<close> is called. The constructor ends with
  \<^verbatim>\<open>_build_pauli_rep\<close>, whose test \<^verbatim>\<open>all(...)\<close> over the operands' \<^verbatim>\<open>pauli_rep\<close> is true when
  there is no operand at all, and which then reads \<^verbatim>\<open>coeffs[0]\<close>: a store left without terms
  raises \<^verbatim>\<open>IndexError\<close> there. With at least one operand the method raises nothing, and the
  attribute it fills is not part of the store.
\<close>

type_synonym partitioner = "operand list \<Rightarrow> operand list list"

text \<open>
  Modelled from the spec: \<^verbatim>\<open>qml.pauli.are_identical_pauli_words\<close> is absent; section 4.4
  has the words of a group matched against the original operands ``by structural
  identity''.
\<close>

definition are_identical_pauli_words :: "operand \<Rightarrow> operand \<Rightarrow> bool" where
  "are_identical_pauli_words pauli_word observable = structurally_equal pauli_word observable"

text \<open>
  \<^verbatim>\<open>for ind, observable in enumerate(ops): if are_identical_pauli_words(...): ... break\<close>:
  the first position of a matching operand, if any.
\<close>

fun find_identical :: "operand \<Rightarrow> operand list \<Rightarrow> nat option" where
  "find_identical pauli_word [] = None"
| "find_identical pauli_word (observable # rest) =
     (if are_identical_pauli_words pauli_word observable then Some 0
      else map_option Suc (find_identical pauli_word rest))"

text \<open>
  The body of the loop over the words of one partition, on the remaining operands (the
  local copy of \<open>ops\<close>), the indices still available for them and the indices of this
  group. The first two shrink together, so \<open>ind\<close> is in range for both.
\<close>

fun match_word ::
  "operand list \<times> nat list \<times> nat list \<Rightarrow> operand \<Rightarrow> operand list \<times> nat list \<times> nat list" where
  "match_word (ops_left, available_indices, indices_this_group) pauli_word =
     (case find_identical pauli_word ops_left of
        Some ind \<Rightarrow>
          (del_at ind ops_left, del_at ind available_indices,
           indices_this_group @ [available_indices ! ind])
      | None \<Rightarrow> (ops_left, available_indices, indices_this_group))"

fun grouping_loop ::
  "operand list list \<Rightarrow> operand list \<times> nat list \<Rightarrow> nat list list \<Rightarrow> nat list list" where
  "grouping_loop [] st indices = indices"
| "grouping_loop (part # observable_groups) (ops_left, available_indices) indices =
     (case foldl match_word (ops_left, available_indices, []) part of
        (ops_left', available_indices', indices_this_group) \<Rightarrow>
          grouping_loop observable_groups (ops_left', available_indices')
            (indices @ [indices_this_group]))"

definition compute_grouping_indices :: "partitioner \<Rightarrow> operand list \<Rightarrow> nat list list" where
  "compute_grouping_indices group_ops op_list =
     grouping_loop (group_ops op_list) (op_list, [0..<length op_list]) []"

definition compute_grouping :: "partitioner \<Rightarrow> store \<Rightarrow> store" where
  "compute_grouping group_ops S =
     S\<lparr> grouping_indices := Some (compute_grouping_indices group_ops (ops S)) \<rparr>"

definition LinearCombination_init ::
  "real list \<Rightarrow> operand list \<Rightarrow> bool \<Rightarrow> partitioner option \<Rightarrow> error + store" where
  "LinearCombination_init cs os simplify_flag grouping =
     (if length cs \<noteq> length os then Inl ValueError
      else
        (let S = \<lparr> coeffs = cs, ops = os, lc_wires = all_wires (map op_wires os) True,
                    grouping_indices = None, operands = zip cs os \<rparr>
         in case (if simplify_flag then simplify S else (None, S)) of
              (Some e, S1) \<Rightarrow> Inl e
            | (None, S1) \<Rightarrow>
                (let S2 = (case grouping of
                             None \<Rightarrow> S1
                           | Some group_ops \<Rightarrow> compute_grouping group_ops S1)
                 in if ops S2 = [] then Inl IndexError else Inr S2)))"

text \<open>
  Modelled from the spec: the function \<^verbatim>\<open>qml.dot\<close>, which every operator of the module
  calls for its result, is absent. The spec builds a store with it (scenario 4:
  \<^verbatim>\<open>dot([1], [X(0)])\<close>) and has every operation ``return a new term store'' (section 4.6),
  and the module passes it the constructor's own keywords \<^verbatim>\<open>simplify\<close> and \<^verbatim>\<open>grouping_type\<close>:
  it is taken to be the constructor.
\<close>

definition dot ::
  "real list \<Rightarrow> operand list \<Rightarrow> bool \<Rightarrow> partitioner option \<Rightarrow> error + store" where
  "dot cs os simplify_flag grouping = LinearCombination_init cs os simplify_flag grouping"

subsection \<open>Arithmetic\<close>

text \<open>
  The right operand of \<open>*\<close>: a Python \<open>int\<close>, a \<open>float\<close>, or anything else. An operator
  method returns a value, raises, or returns the sentinel \<^verbatim>\<open>NotImplemented\<close>.
\<close>

datatype scalar_arg = IntArg int | FloatArg real | OtherArg

datatype 'a py_result = Returned 'a | Raised error | NotImplemented

fun of_sum :: "error + 'a \<Rightarrow> 'a py_result" where
  "of_sum (Inl e) = Raised e"
| "of_sum (Inr v) = Returned v"

text \<open>\<^verbatim>\<open>isinstance(a, (int, float))\<close> and the number then multiplied in.\<close>

fun scalar_value :: "scalar_arg \<Rightarrow> real option" where
  "scalar_value (IntArg i) = Some (of_int i)"
| "scalar_value (FloatArg x) = Some x"
| "scalar_value OtherArg = None"

text \<open>\<^verbatim>\<open>__mul__\<close>: a new store from the scaled coefficients and a copy of the operands.\<close>

definition mul :: "store \<Rightarrow> scalar_arg \<Rightarrow> store py_result" where
  "mul S a =
     (case scalar_value a of
        Some x \<Rightarrow>
          of_sum (dot (map (\<lambda>c. x * c) (coeffs S)) (ops S) False None)
      | None \<Rightarrow> NotImplemented)"

text \<open>\<^verbatim>\<open>__imul__\<close>: the store after the call, or \<^verbatim>\<open>NotImplemented\<close> with the store untouched.\<close>

definition imul :: "store \<Rightarrow> scalar_arg \<Rightarrow> store py_result" where
  "imul S a =
     (case scalar_value a of
        Some x \<Rightarrow> Returned (S\<lparr> coeffs := map (\<lambda>c. x * c) (coeffs S) \<rparr>)
      | None \<Rightarrow> NotImplemented)"

text \<open>
  The right operand of \<open>@\<close> and the argument of \<^verbatim>\<open>compare\<close>: another store, a single
  observable or tensor, or anything else.
\<close>

datatype operator_arg = LC store | Op operand | Other

text \<open>
  Modelled from the spec: \<^verbatim>\<open>Wires.shared_wires\<close> is absent; two stores ``share a wire''
  when a label occurs in both wire sets (section 4.6).
\<close>

definition shared_wires :: "wire list \<Rightarrow> wire list \<Rightarrow> wire list" where
  "shared_wires ws1 ws2 = filter (\<lambda>w. w \<in> set ws2) ws1"

text \<open>
  Modelled from the spec: the constructor \<^verbatim>\<open>Tensor(a, b)\<close> and \<^verbatim>\<open>a @ b\<close> on operands are
  absent; the ``pairwise tensor-products'' of section 4.6 have the factors of \<open>a\<close>, then
  those of \<open>b\<close>.
\<close>

fun tensor :: "operand \<Rightarrow> operand \<Rightarrow> operand" where
  "tensor (Atomic a) b = Tensor a (obs b)"
| "tensor (Tensor a as) b = Tensor a (as @ obs b)"

text \<open>\<^verbatim>\<open>qml.math.kron\<close> of two coefficient vectors.\<close>

definition kron_coeffs :: "real list \<Rightarrow> real list \<Rightarrow> real list" where
  "kron_coeffs coeffs1 coeffs2 = concat (map (\<lambda>a. map (\<lambda>b. a * b) coeffs2) coeffs1)"

definition matmul :: "store \<Rightarrow> operator_arg \<Rightarrow> store py_result" where
  "matmul S H =
     (case H of
        LC H' \<Rightarrow>
          if length (shared_wires (lc_wires S) (lc_wires H')) > 0 then Raised ValueError
          else
            of_sum (dot
                      (kron_coeffs (coeffs S) (coeffs H'))
                      (map (\<lambda>t. tensor (fst t) (snd t)) (List.product (ops S) (ops H')))
                      True None)
      | Op h \<Rightarrow>
          of_sum (dot (coeffs S) (map (\<lambda>op. tensor op h) (ops S)) True None)
      | Other \<Rightarrow> NotImplemented)"

subsection \<open>compare\<close>






section \<open>Matrix assembly\<close>

text \<open>
  A square complex matrix is its dimension and its entries (exact complex numbers stand
  for \<open>complex128\<close>); the storage formats of the sparse matrices (\<open>coo\<close>, \<open>csr\<close>) are not
  modelled. \<open>to_dense\<close> lists the entries row by row.
\<close>

datatype cmat = CMat (dim: nat) (ent: "nat \<Rightarrow> nat \<Rightarrow> complex")

definition to_dense :: "cmat \<Rightarrow> complex list list" where
  "to_dense M = map (\<lambda>i. map (\<lambda>j. ent M i j) [0..<dim M]) [0..<dim M]"

definition of_rows :: "complex list list \<Rightarrow> cmat" where
  "of_rows rows =
     CMat (length rows)
       (\<lambda>i j. if i < length rows \<and> j < length (rows ! i) then rows ! i ! j else 0)"

text \<open>\<^verbatim>\<open>scipy.sparse.eye(n)\<close>, \<^verbatim>\<open>csr_matrix((n, n))\<close>, \<^verbatim>\<open>scipy.sparse.kron\<close>, \<open>M * coeff\<close>, \<open>A + B\<close>.\<close>

definition eye :: "nat \<Rightarrow> cmat" where
  "eye n = CMat n (\<lambda>i j. if i = j then 1 else 0)"

definition zeros :: "nat \<Rightarrow> cmat" where
  "zeros n = CMat n (\<lambda>i j. 0)"

definition kron :: "cmat \<Rightarrow> cmat \<Rightarrow> cmat" where
  "kron A B =
     CMat (dim A * dim B)
       (\<lambda>i j. ent A (i div dim B) (j div dim B) * ent B (i mod dim B) (j mod dim B))"

definition scale :: "complex \<Rightarrow> cmat \<Rightarrow> cmat" where
  "scale c A = CMat (dim A) (\<lambda>i j. c * ent A i j)"

definition mat_add :: "cmat \<Rightarrow> cmat \<Rightarrow> cmat" where
  "mat_add A B = CMat (dim A) (\<lambda>i j. ent A i j + ent B i j)"

definition mat_mul :: "cmat \<Rightarrow> cmat \<Rightarrow> cmat" where
  "mat_mul A B = CMat (dim A) (\<lambda>i j. sum_list (map (\<lambda>k. ent A i k * ent B k j) [0..<dim A]))"

text \<open>
  \<^verbatim>\<open>OBS_MAP\<close> names the single-qubit operators the module knows by name.
\<close>

definition OBS_MAP :: "(string \<times> string) list" where
  "OBS_MAP =
     [(''PauliX'', ''X''), (''PauliY'', ''Y''), (''PauliZ'', ''Z''), (''Hadamard'', ''H''),
      (''Identity'', ''I'')]"

text \<open>
  Modelled from the spec: the operand capability \<^verbatim>\<open>.matrix()\<close> (section 6) is absent. The five
  operators of \<^verbatim>\<open>OBS_MAP\<close> have their usual 2 by 2 matrix; the matrix of any other operator
  is outside this development and counts as undefined.
\<close>

definition inv_sqrt2 :: real where
  "inv_sqrt2 = 1 / sqrt 2"

declare inv_sqrt2_def [code del]

definition op_matrix :: "observable \<Rightarrow> cmat option" where
  "op_matrix ob =
     (if name ob = ''PauliX'' then Some (of_rows [[0, 1], [1, 0]])
      else if name ob = ''PauliY'' then Some (of_rows [[0, - \<i>], [\<i>, 0]])
      else if name ob = ''PauliZ'' then Some (of_rows [[1, 0], [0, - 1]])
      else if name ob = ''Hadamard'' then
        Some (scale (complex_of_real inv_sqrt2) (of_rows [[1, 1], [1, - 1]]))
      else if name ob = ''Identity'' then Some (of_rows [[1, 0], [0, 1]])
      else None)"

subsection \<open>sparse_matrix\<close>

text \<open>
  The list \<open>obs\<close> of a term: the matrices of the factors, unless one of them acts on more
  than one wire.
\<close>

fun sparse_obs :: "observable list \<Rightarrow> error + cmat list" where
  "sparse_obs [] = Inr []"
| "sparse_obs (ob # rest) =
     (if length (wires ob) > 1 then Inl ValueError
      else
        (case op_matrix ob of
           None \<Rightarrow> Inl MatrixUndefinedError
         | Some m \<Rightarrow>
             (case sparse_obs rest of
                Inl e \<Rightarrow> Inl e
              | Inr ms \<Rightarrow> Inr (m # ms))))"

text \<open>\<^verbatim>\<open>op.wires.index(wire_lab)\<close>, called for a label that is in \<^verbatim>\<open>op.wires\<close>.\<close>

fun index_of :: "wire \<Rightarrow> wire list \<Rightarrow> nat" where
  "index_of w [] = 0"
| "index_of w (x # xs) = (if x = w then 0 else Suc (index_of w xs))"

text \<open>
  The loop over the wire labels, on the block list \<open>mat\<close> and the count \<open>i_count\<close> of
  consecutive wires the term does not act on. \<open>idx\<close> is below the number of wires of the
  operand, which is at most the number of its factors once every factor has at most one
  wire, so \<open>obs[idx]\<close> is in range.
\<close>

fun sparse_walk ::
  "wire list \<Rightarrow> wire list \<Rightarrow> cmat list \<Rightarrow> cmat list \<Rightarrow> nat \<Rightarrow> cmat list \<times> nat" where
  "sparse_walk [] opw ob_mats mat i_count = (mat, i_count)"
| "sparse_walk (wire_lab # rest) opw ob_mats mat i_count =
     (if wire_lab \<in> set opw then
        (let mat1 = (if i_count > 0 then mat @ [eye (2 ^ i_count)] else mat);
             idx = index_of wire_lab opw
         in sparse_walk rest opw ob_mats (mat1 @ [ob_mats ! idx]) 0)
      else sparse_walk rest opw ob_mats mat (i_count + 1))"

text \<open>
  The matrix \<open>red_mat\<close> of one term. \<^verbatim>\<open>functools.reduce\<close> without an initial value raises a
  \<open>TypeError\<close> on an empty block list, which is what an empty wire order gives. The factor
  \<open>coeff\<close> is an entry of \<^verbatim>\<open>data\<close>; an entry that is a parameter of an operand and not a
  coefficient has no numeric value in this development, and the product with it counts
  as a \<open>TypeError\<close>.
\<close>

definition sparse_term :: "wire list \<Rightarrow> datum \<Rightarrow> operand \<Rightarrow> error + cmat" where
  "sparse_term wire_labels coeff op =
     (case sparse_obs (obs op) of
        Inl e \<Rightarrow> Inl e
      | Inr ob_mats \<Rightarrow>
          (case sparse_walk wire_labels (op_wires op) ob_mats [] 0 of
             (mat, i_count) \<Rightarrow>
               (case (if i_count > 0 then mat @ [eye (2 ^ i_count)] else mat) of
                  [] \<Rightarrow> Inl TypeError
                | m # ms \<Rightarrow>
                    (case coeff of
                       Coefficient c \<Rightarrow> Inr (scale (complex_of_real c) (foldl kron m ms))
                     | Parameter p \<Rightarrow> Inl TypeError))))"

text \<open>
  \<^verbatim>\<open>matrix += sum(temp_mats)\<close>: Python's \<open>sum\<close> starts from the integer 0, and adding 0
  to a sparse matrix leaves it as it is. Every block of a term is 2 by 2 or an identity
  of a power of 2, one block or one place in an identity for each wire label, so all term
  matrices have the dimension of \<open>matrix\<close> and the addition never meets unequal shapes.
\<close>

definition add_sum :: "cmat \<Rightarrow> cmat list \<Rightarrow> cmat" where
  "add_sum matrix temp_mats =
     (case temp_mats of
        [] \<Rightarrow> matrix
      | t # ts \<Rightarrow> mat_add matrix (foldl mat_add t ts))"

text \<open>The loop over the terms, with the partial sums taken every 100 terms.\<close>

fun sparse_loop ::
  "wire list \<Rightarrow> (datum \<times> operand) list \<Rightarrow> cmat \<Rightarrow> cmat list \<Rightarrow> error + cmat" where
  "sparse_loop wire_labels [] matrix temp_mats = Inr (add_sum matrix temp_mats)"
| "sparse_loop wire_labels ((coeff, op) # rest) matrix temp_mats =
     (case sparse_term wire_labels coeff op of
        Inl e \<Rightarrow> Inl e
      | Inr red_mat \<Rightarrow>
          (let temp_mats' = temp_mats @ [red_mat]
           in if length temp_mats' mod 100 = 0
              then sparse_loop wire_labels rest (add_sum matrix temp_mats') []
              else sparse_loop wire_labels rest matrix temp_mats'))"

text \<open>
  \<^verbatim>\<open>sparse_matrix(wire_order)\<close> takes its coefficients from \<^verbatim>\<open>self.data\<close>, not from
  \<^verbatim>\<open>self.coeffs\<close>, and pairs them with \<^verbatim>\<open>self.ops\<close>. Reading \<^verbatim>\<open>data\<close> changes the store, so
  the result comes with the store as the call leaves it.
\<close>

definition sparse_matrix :: "wire list option \<Rightarrow> store \<Rightarrow> (error + cmat) \<times> store" where
  "sparse_matrix wire_order S =
     (let wire_labels = (case wire_order of None \<Rightarrow> lc_wires S | Some w \<Rightarrow> w);
          n = length wire_labels
      in case get_data S of
           (data_coeffs, S') \<Rightarrow>
             (sparse_loop wire_labels (zip data_coeffs (ops S')) (zeros (2 ^ n)) [], S'))"

subsection \<open>matrix\<close>

text \<open>
  Modelled from the spec: \<^verbatim>\<open>qml.math.reduce_matrices\<close>, \<^verbatim>\<open>qml.math.expand_matrix\<close> and the
  operands' own \<^verbatim>\<open>matrix()\<close> are absent. By section 4.5 the dense result is ``the sum over
  all terms of coefficient * kron(single-wire-or-identity-factor matrices ordered per the
  wire ordering)'', with ``the operand's own dense-matrix routine'' for the matrix of a
  term, and the assembly fails with a ValueError-class error when a wire of the store is
  missing from the ordering. The spec does not say what the routine does with several
  factors on one wire. The model takes the run of consecutive factors with the same wires
  as one factor, whose matrix is the matrix product of the run in factor order. A tensor
  with two separate runs on one wire is given no matrix: it counts as undefined, as
  does the matrix of an operator that \<open>op_matrix\<close> does not know.
\<close>

fun wire_groups :: "observable list \<Rightarrow> (wire list \<times> observable list) list" where
  "wire_groups [] = []"
| "wire_groups (ob # rest) =
     (case wire_groups rest of
        [] \<Rightarrow> [(wires ob, [ob])]
      | (ws, g) # gs \<Rightarrow>
          if wires ob = ws then (ws, ob # g) # gs else (wires ob, [ob]) # (ws, g) # gs)"

definition group_matrix :: "observable list \<Rightarrow> cmat" where
  "group_matrix g =
     (case List.map_filter op_matrix g of
        [] \<Rightarrow> eye 2
      | m # ms \<Rightarrow> foldl mat_mul m ms)"

definition wire_factor :: "operand \<Rightarrow> wire \<Rightarrow> cmat option" where
  "wire_factor op w =
     (case filter (\<lambda>g. w \<in> set (fst g)) (wire_groups (obs op)) of
        [] \<Rightarrow> Some (eye 2)
      | [g] \<Rightarrow> Some (group_matrix (snd g))
      | g # g' # gs \<Rightarrow> None)"

definition term_matrix :: "wire list \<Rightarrow> operand \<Rightarrow> cmat option" where
  "term_matrix wire_labels op =
     (if \<exists>w \<in> set wire_labels. wire_factor op w = None then None
      else
        Some (foldr kron (List.map_filter (wire_factor op) wire_labels) (eye 1)))"

text \<open>
  Modelled from the spec: in \<^verbatim>\<open>matrix(wire_order)\<close> the sum of the term matrices over the wire
  ordering and the check of the ordering stand for the absent helpers (see above). From
  the source: the terms are those of \<^verbatim>\<open>zip(coeffs, ops)\<close>, with the coefficients of
  \<^verbatim>\<open>self.coeffs\<close>, and \<^verbatim>\<open>wire_order or self.wires\<close> takes the store's own wires for \<open>None\<close> and
  for an empty order alike.
\<close>

definition matrix :: "wire list option \<Rightarrow> store \<Rightarrow> error + cmat" where
  "matrix wire_order S =
     (let terms = zip (coeffs S) (ops S) in
      if \<exists>t \<in> set terms.
           (\<exists>ob \<in> set (obs (snd t)). op_matrix ob = None) \<or>
           (\<exists>w \<in> set (op_wires (snd t)). wire_factor (snd t) w = None)
      then Inl MatrixUndefinedError
      else
        (let sum_wires = all_wires (map (\<lambda>t. op_wires (snd t)) terms) False;
             wire_labels =
               (case wire_order of
                  None \<Rightarrow> lc_wires S
                | Some w \<Rightarrow> if w = [] then lc_wires S else w)
         in if \<not> set sum_wires \<subseteq> set wire_labels then Inl ValueError
            else
              Inr (foldr mat_add
                     (List.map_filter
                        (\<lambda>t. map_option (scale (complex_of_real (fst t)))
                               (term_matrix wire_labels (snd t)))
                        terms)
                     (zeros (2 ^ length wire_labels)))))"

section \<open>The simplifier's contract, in the words of the spec\<close>

text \<open>
  The terms of a store, and the key of a term's operand. A group is the set of terms with
  one key; \<open>group_sum\<close> is ``the arithmetic sum of the group's coefficients'' and
  \<open>group_size\<close> the number of its terms (section 4.3).
\<close>

definition terms :: "store \<Rightarrow> (real \<times> operand) list" where
  "terms S = zip (coeffs S) (ops S)"

abbreviation tkey :: "real \<times> operand \<Rightarrow> atomic_key set" where
  "tkey t \<equiv> identity_key (snd t)"

definition group_sum :: "(real \<times> operand) list \<Rightarrow> atomic_key set \<Rightarrow> real" where
  "group_sum ts k = sum_list (map fst (filter (\<lambda>t. tkey t = k) ts))"

definition group_size :: "(real \<times> operand) list \<Rightarrow> atomic_key set \<Rightarrow> nat" where
  "group_size ts k = length (filter (\<lambda>t. tkey t = k) ts)"

text \<open>
  A group is cancelled in a term list when it has two or more terms there and their sum
  is within the tolerance of zero. \<open>no_reentry\<close>: no term belongs to a group that is
  cancelled in an initial segment of the terms before it.
\<close>

definition cancelled :: "(real \<times> operand) list \<Rightarrow> atomic_key set \<Rightarrow> bool" where
  "cancelled ts k = (2 \<le> group_size ts k \<and> isclose (group_sum ts k) 0)"


text \<open>
  The terms that come first in their group, in insertion order, and the term sequence
  the contract asks for: one term for each group that is not cancelled, with the sum of
  the group and the pruned operand of its first term.
\<close>

definition first_occurrences :: "(real \<times> operand) list \<Rightarrow> (real \<times> operand) list" where
  "first_occurrences ts =
     foldl (\<lambda>acc t. if tkey t \<in> tkey ` set acc then acc else acc @ [t]) [] ts"

definition merged_terms :: "(real \<times> operand) list \<Rightarrow> (real \<times> operand) list" where
  "merged_terms ts =
     map (\<lambda>t. (group_sum ts (tkey t), prune (as_tensor (snd t))))
       (filter (\<lambda>t. \<not> cancelled ts (tkey t)) (first_occurrences ts))"

text \<open>The loop of \<open>simplify\<close> on one list of pairs instead of two lists in step.\<close>

definition merge_step :: "(real \<times> operand) list \<Rightarrow> real \<times> operand \<Rightarrow> (real \<times> operand) list" where
  "merge_step es t =
     (case find_ind (as_tensor (snd t)) (map snd es) of
        Some ind \<Rightarrow>
          (let v = fst (es ! ind) + fst t
           in if isclose v 0 then del_at ind es else es[ind := (v, snd (es ! ind))])
      | None \<Rightarrow> es @ [(fst t, prune (as_tensor (snd t)))])"


text \<open>A store is simplified when the simplifier's loop gives back its term sequences.\<close>

definition is_simplified :: "store \<Rightarrow> bool" where
  "is_simplified S = (simplify_loop (zip (coeffs S) (ops S)) = (coeffs S, ops S))"

section \<open>Example operands and stores\<close>

definition PauliX :: "wire \<Rightarrow> observable" where "PauliX w = Observable ''PauliX'' [w] [] []"
definition PauliY :: "wire \<Rightarrow> observable" where "PauliY w = Observable ''PauliY'' [w] [] []"
definition PauliZ :: "wire \<Rightarrow> observable" where "PauliZ w = Observable ''PauliZ'' [w] [] []"
definition Hadamard :: "wire \<Rightarrow> observable" where "Hadamard w = Observable ''Hadamard'' [w] [] []"


text \<open>Scenario 3 of the spec, with its grouping cache populated.\<close>

definition scenario3 :: store where
  "scenario3 =
     \<lparr> coeffs = [1, 2, 3],
       ops = [Atomic (PauliX 0), Atomic (PauliX 1), Atomic (PauliZ 0)],
       lc_wires = [0, 1], grouping_indices = Some [[0, 1], [2]],
       operands = [(1, Atomic (PauliX 0)), (2, Atomic (PauliX 1)), (3, Atomic (PauliZ 0))] \<rparr>"








text \<open>
  Stores for the arithmetic operators and for \<open>compare\<close>. \<open>one_group\<close> is a partitioner
  that puts all the words into one group.
\<close>

definition one_group :: partitioner where
  "one_group op_list = [op_list]"

definition doubled_store :: store where
  "doubled_store =
     \<lparr> coeffs = [1, 1], ops = [Atomic (PauliX 0), Atomic (PauliX 0)], lc_wires = [0],
       grouping_indices = Some [[0, 1]],
       operands = [(1, Atomic (PauliX 0)), (1, Atomic (PauliX 0))] \<rparr>"




definition storeX0 :: store where
  "storeX0 =
     \<lparr> coeffs = [1], ops = [Atomic (PauliX 0)], lc_wires = [0], grouping_indices = None,
       operands = [(1, Atomic (PauliX 0))] \<rparr>"

definition storeZ0 :: store where
  "storeZ0 =
     \<lparr> coeffs = [1], ops = [Atomic (PauliZ 0)], lc_wires = [0], grouping_indices = None,
       operands = [(1, Atomic (PauliZ 0))] \<rparr>"

definition storeY1 :: store where
  "storeY1 =
     \<lparr> coeffs = [1], ops = [Atomic (PauliY 1)], lc_wires = [1], grouping_indices = None,
       operands = [(1, Atomic (PauliY 1))] \<rparr>"

definition storeA :: store where
  "storeA =
     \<lparr> coeffs = [2, 3], ops = [Atomic (PauliX 0), Atomic (PauliZ 0)], lc_wires = [0],
       grouping_indices = None,
       operands = [(2, Atomic (PauliX 0)), (3, Atomic (PauliZ 0))] \<rparr>"

definition storeB :: store where
  "storeB =
     \<lparr> coeffs = [5, 7], ops = [Atomic (PauliY 1), Atomic (PauliZ 2)], lc_wires = [1, 2],
       grouping_indices = None,
       operands = [(5, Atomic (PauliY 1)), (7, Atomic (PauliZ 2))] \<rparr>"

text \<open>A store with a repeated operand word, and the groups a partitioner returns for it and for scenario 3.\<close>

definition repeated_store :: store where
  "repeated_store =
     \<lparr> coeffs = [1, 2, 3], ops = [Atomic (PauliX 0), Atomic (PauliZ 0), Atomic (PauliX 0)],
       lc_wires = [0], grouping_indices = None,
       operands = [(1, Atomic (PauliX 0)), (2, Atomic (PauliZ 0)), (3, Atomic (PauliX 0))] \<rparr>"

definition repeated_groups :: partitioner where
  "repeated_groups op_list = [[Atomic (PauliX 0), Atomic (PauliX 0)], [Atomic (PauliZ 0)]]"

definition scenario3_groups :: partitioner where
  "scenario3_groups op_list = [[Atomic (PauliX 0), Atomic (PauliX 1)], [Atomic (PauliZ 0)]]"

text \<open>Scenario 5 of the spec, a store whose operand has two factors on one wire, and a store on two wires.\<close>

definition scenario5 :: store where
  "scenario5 =
     \<lparr> coeffs = [1, - 45 / 100],
       ops = [Tensor (PauliZ 0) [PauliZ 1], Tensor (PauliY 0) [PauliZ 1]],
       lc_wires = [0, 1], grouping_indices = None,
       operands = [(1, Tensor (PauliZ 0) [PauliZ 1]), (- 45 / 100, Tensor (PauliY 0) [PauliZ 1])] \<rparr>"

definition overlap_store :: store where
  "overlap_store =
     \<lparr> coeffs = [1], ops = [Tensor (PauliX 0) [PauliZ 0]], lc_wires = [0],
       grouping_indices = None, operands = [(1, Tensor (PauliX 0) [PauliZ 0])] \<rparr>"

definition two_wire_store :: store where
  "two_wire_store =
     \<lparr> coeffs = [1], ops = [Tensor (PauliX 0) [PauliZ 1]], lc_wires = [0, 1],
       grouping_indices = None, operands = [(1, Tensor (PauliX 0) [PauliZ 1])] \<rparr>"

section \<open>The simplifier\<close>

lemma key_as_tensor [simp]: "identity_key (as_tensor op) = identity_key op"
  by (cases op) (simp_all add: identity_key_def non_identity_obs_def)

lemma key_prune [simp]: "identity_key (prune op) = identity_key op"
proof (cases "non_identity_obs op")
  case Nil
  then show ?thesis
    by (simp add: prune_def identity_key_def non_identity_obs_def)
next
  case (Cons ob rest)
  have "\<forall>x \<in> set (non_identity_obs op). name x \<noteq> ''Identity''"
    by (simp add: non_identity_obs_def)
  with Cons have all: "\<forall>x \<in> set (ob # rest). name x \<noteq> ''Identity''"
    by simp
  show ?thesis
  proof (cases rest)
    case Nil
    with Cons all show ?thesis
      by (simp add: prune_def identity_key_def non_identity_obs_def)
  next
    case (Cons r rs)
    with \<open>non_identity_obs op = ob # rest\<close> all show ?thesis
      by (simp add: prune_def identity_key_def non_identity_obs_def)
  qed
qed

lemma find_ind_Some:
  "find_ind op os = Some i \<Longrightarrow>
     i < length os \<and> identity_key (os ! i) = identity_key op \<and>
     (\<forall>j<i. identity_key (os ! j) \<noteq> identity_key op)"
proof (induction os arbitrary: i)
  case Nil
  then show ?case by simp
next
  case (Cons a os)
  show ?case
  proof (cases "structurally_equal op a")
    case True
    with Cons.prems show ?thesis by (auto simp: structurally_equal_def)
  next
    case False
    with Cons.prems obtain i' where i': "find_ind op os = Some i'" "i = Suc i'"
      by auto
    from Cons.IH [OF i'(1)] False i'(2) show ?thesis
      by (auto simp: structurally_equal_def less_Suc_eq_0_disj)
  qed
qed

lemma find_ind_None:
  "find_ind op os = None \<longleftrightarrow> (\<forall>x \<in> set os. identity_key x \<noteq> identity_key op)"
  by (induction os) (auto simp: structurally_equal_def)

lemma del_at_map: "del_at i (map f xs) = map f (del_at i xs)"
  by (simp add: del_at_def take_map drop_map)

lemma length_del_at: "i < length xs \<Longrightarrow> length (del_at i xs) = length xs - 1"
  by (simp add: del_at_def)

lemma set_del_at: "set (del_at i xs) \<subseteq> set xs"
  unfolding del_at_def by (auto dest: in_set_takeD in_set_dropD)

lemma del_at_update: "del_at i (xs[i := v]) = del_at i xs"
  by (simp add: del_at_def)

lemma simplify_step_pairs:
  "simplify_step (map fst es, map snd es) t =
     (map fst (merge_step es t), map snd (merge_step es t))"
proof (cases "find_ind (as_tensor (snd t)) (map snd es)")
  case None
  then show ?thesis
    by (cases t) (simp add: simplify_step_def merge_step_def Let_def)
next
  case (Some ind)
  from find_ind_Some [OF Some] have "ind < length es" by simp
  with Some show ?thesis
    by (cases t)
      (auto simp: simplify_step_def merge_step_def Let_def del_at_map map_update del_at_update
         list_update_same_conv [THEN iffD2])
qed

lemma simplify_loop_pairs_aux:
  "foldl simplify_step (map fst es, map snd es) ts =
     (map fst (foldl merge_step es ts), map snd (foldl merge_step es ts))"
  by (induction ts arbitrary: es) (simp_all add: simplify_step_pairs)

lemma simplify_loop_pairs:
  "simplify_loop ts = (map fst (foldl merge_step [] ts), map snd (foldl merge_step [] ts))"
  using simplify_loop_pairs_aux [of "[]" ts] by (simp add: simplify_loop_def)






lemma first_occurrences_Nil [simp]: "first_occurrences [] = []"
  by (simp add: first_occurrences_def)









lemma find_ind_keys:
  assumes "distinct (map identity_key os)" "i < length os" "identity_key (os ! i) = identity_key op"
  shows "find_ind op os = Some i"
proof (cases "find_ind op os")
  case None
  with assms(2,3) show ?thesis
    by (auto simp: find_ind_None)
next
  case (Some j)
  from find_ind_Some [OF Some] have j: "j < length os" "identity_key (os ! j) = identity_key op"
    by simp_all
  with assms have "map identity_key os ! i = map identity_key os ! j" by simp
  with assms(1,2) j(1) have "i = j"
    by (simp add: nth_eq_iff_index_eq del: nth_map)
  with Some show ?thesis by simp
qed

lemma filter_key_single:
  "distinct (map f xs) \<Longrightarrow> i < length xs \<Longrightarrow> filter (\<lambda>x. f x = f (xs ! i)) xs = [xs ! i]"
proof (induction xs arbitrary: i)
  case Nil
  then show ?case by simp
next
  case (Cons a xs)
  show ?case
  proof (cases i)
    case 0
    with Cons.prems have "\<forall>x \<in> set xs. f x \<noteq> f a" by (force simp: image_iff)
    then have "filter (\<lambda>x. f x = f a) xs = []" by (simp add: filter_empty_conv)
    with 0 show ?thesis by simp
  next
    case (Suc i')
    with Cons.prems have "f a \<noteq> f (xs ! i')" by auto
    with Cons.IH [of i'] Cons.prems Suc show ?thesis by simp
  qed
qed

lemma filter_key_del_at:
  "distinct (map f xs) \<Longrightarrow> i < length xs \<Longrightarrow> filter (\<lambda>x. f x \<noteq> f (xs ! i)) xs = del_at i xs"
proof (induction xs arbitrary: i)
  case Nil
  then show ?case by simp
next
  case (Cons a xs)
  show ?case
  proof (cases i)
    case 0
    with Cons.prems have "\<forall>x \<in> set xs. f x \<noteq> f a" by (force simp: image_iff)
    then have "filter (\<lambda>x. f x \<noteq> f a) xs = xs" by (simp add: filter_id_conv)
    with 0 show ?thesis by (simp add: del_at_def)
  next
    case (Suc i')
    with Cons.prems have "f a \<noteq> f (xs ! i')" by auto
    with Cons.IH [of i'] Cons.prems Suc show ?thesis by (simp add: del_at_def)
  qed
qed

lemma map_key_update:
  assumes "distinct (map f xs)" "i < length xs" "f y = f (xs ! i)"
  shows "map (\<lambda>x. if f x = f (xs ! i) then g x else x) xs = xs[i := g (xs ! i)]"
proof (rule nth_equalityI)
  show "length (map (\<lambda>x. if f x = f (xs ! i) then g x else x) xs) = length (xs[i := g (xs ! i)])"
    by simp
next
  fix j assume "j < length (map (\<lambda>x. if f x = f (xs ! i) then g x else x) xs)"
  then have j: "j < length xs" by simp
  have "f (xs ! j) = f (xs ! i) \<longleftrightarrow> j = i"
    using assms(1,2) j nth_eq_iff_index_eq [of "map f xs" j i] by simp
  with j show "map (\<lambda>x. if f x = f (xs ! i) then g x else x) xs ! j = xs[i := g (xs ! i)] ! j"
    by (simp add: nth_list_update)
qed

lemma merge_step_by_key:
  assumes d: "distinct (map tkey es)"
  shows "merge_step es t =
     (if tkey t \<in> tkey ` set es then
        (let v = group_sum es (tkey t) + fst t
         in if isclose v 0 then filter (\<lambda>e. tkey e \<noteq> tkey t) es
            else map (\<lambda>e. if tkey e = tkey t then (v, snd e) else e) es)
      else es @ [(fst t, prune (as_tensor (snd t)))])"
proof (cases "find_ind (as_tensor (snd t)) (map snd es)")
  case None
  then have "tkey t \<notin> tkey ` set es"
    by (auto simp: find_ind_None)
  with None show ?thesis by (simp add: merge_step_def)
next
  case (Some ind)
  from find_ind_Some [OF Some] have ind: "ind < length es" "tkey (es ! ind) = tkey t"
    by auto
  then have mem: "tkey t \<in> tkey ` set es"
    by (metis image_eqI nth_mem)
  have gs: "group_sum es (tkey t) = fst (es ! ind)"
    using filter_key_single [OF d ind(1)] ind(2) by (simp add: group_sum_def)
  have del: "filter (\<lambda>e. tkey e \<noteq> tkey t) es = del_at ind es"
    using filter_key_del_at [OF d ind(1)] ind(2) by simp
  have upd: "map (\<lambda>e. if tkey e = tkey t then (v, snd e) else e) es = es[ind := (v, snd (es ! ind))]" for v
    using map_key_update [OF d ind(1), of "es ! ind" "\<lambda>e. (v, snd e)"] ind(2) by simp
  from Some mem show ?thesis
    by (simp add: merge_step_def Let_def gs del upd)
qed







lemma merged_terms_Nil [simp]: "merged_terms [] = []"
  by (simp add: merged_terms_def)







lemma set_data_free:
  "\<forall>t \<in> set ts. num_params (snd t) = 0 \<Longrightarrow>
     set_data new_data ts =
       (if length new_data < length ts then (Some IndexError, drop (Suc (length new_data)) ts)
        else (None, []))"
proof (induction new_data ts rule: set_data.induct)
  case (1 new_data)
  show ?case by simp
next
  case (2 new_data t rest)
  show ?case
  proof (cases "new_data = []")
    case True
    then show ?thesis by simp
  next
    case False
    with 2 have "set_data (drop 1 new_data) rest =
        (if length (drop 1 new_data) < length rest
         then (Some IndexError, drop (Suc (length (drop 1 new_data))) rest) else (None, []))"
      by simp
    moreover from False have "Suc (length (drop 1 new_data)) = length new_data"
      by (cases new_data) simp_all
    ultimately show ?thesis using False 2(2) by (cases new_data) auto
  qed
qed

lemma simplify_eq:
  assumes "length (coeffs S) = length (ops S)"
  shows "simplify S =
     (case set_data (map fst (foldl merge_step [] (terms S))) (operands S) of
        (Some e, rest) \<Rightarrow> (Some e, S\<lparr> operands := rest \<rparr>)
      | (None, rest) \<Rightarrow>
          (None,
           \<lparr> coeffs = map fst (foldl merge_step [] (terms S)),
             ops = map snd (foldl merge_step [] (terms S)),
             lc_wires = all_wires (map op_wires (map snd (foldl merge_step [] (terms S)))) True,
             grouping_indices = None, operands = rest \<rparr>))"
  using assms unfolding terms_def by (simp add: simplify_def simplify_loop_pairs)



lemma set_data_cases:
  "fst (set_data new_data ts) = None \<or> fst (set_data new_data ts) = Some IndexError"
  by (induction new_data ts rule: set_data.induct) auto






lemma merge_loop_no_like_terms:
  "distinct (map tkey ts) \<Longrightarrow>
     foldl merge_step [] ts = map (\<lambda>t. (fst t, prune (as_tensor (snd t)))) ts"
proof (induction ts rule: rev_induct)
  case Nil
  show ?case by simp
next
  case (snoc t ts)
  let ?E = "map (\<lambda>t. (fst t, prune (as_tensor (snd t)))) ts"
  from snoc.prems have d: "distinct (map tkey ts)" and n: "tkey t \<notin> tkey ` set ts"
    by auto
  from snoc.IH d have E: "foldl merge_step [] ts = ?E" by simp
  have k: "map tkey ?E = map tkey ts" by (simp add: comp_def)
  from d have dE: "distinct (map tkey ?E)" by (simp only: k)
  have "tkey ` set ?E = tkey ` set ts" by (simp add: image_image)
  with n have nE: "tkey t \<notin> tkey ` set ?E" by simp
  have "foldl merge_step [] (ts @ [t]) = merge_step ?E t" by (simp add: E)
  also from nE have "\<dots> = ?E @ [(fst t, prune (as_tensor (snd t)))]"
    by (simp only: merge_step_by_key [OF dE] if_False)
  finally show ?case by simp
qed

text \<open>
  On a store without like terms whose generator holds no more terms than the store, all
  of them without parameters of their own (so on such a store as the constructor leaves
  it), \<open>simplify\<close> returns: it keeps the coefficients and prunes the operands.
\<close>

lemma simplify_no_like_terms:
  assumes len: "length (coeffs S) = length (ops S)"
    and d: "distinct (map identity_key (ops S))"
    and free: "\<forall>t \<in> set (operands S). num_params (snd t) = 0"
    and l: "length (operands S) \<le> length (ops S)"
  shows "simplify S =
     (None,
      \<lparr> coeffs = coeffs S, ops = map (\<lambda>op. prune (as_tensor op)) (ops S),
        lc_wires = all_wires (map op_wires (map (\<lambda>op. prune (as_tensor op)) (ops S))) True,
        grouping_indices = None, operands = [] \<rparr>)"
proof -
  from len have s: "map snd (terms S) = ops S" by (simp add: terms_def)
  have "map tkey (terms S) = map identity_key (map snd (terms S))"
    by (simp add: comp_def)
  with s have "map tkey (terms S) = map identity_key (ops S)"
    by (simp only:)
  with d have "distinct (map tkey (terms S))" by (simp only:)
  then have E: "foldl merge_step [] (terms S) =
      map (\<lambda>t. (fst t, prune (as_tensor (snd t)))) (terms S)"
    by (rule merge_loop_no_like_terms)
  from len have f: "map fst (terms S) = coeffs S"
    by (simp add: terms_def)
  have c: "map fst (foldl merge_step [] (terms S)) = coeffs S"
    by (simp add: E comp_def f)
  have "map snd (foldl merge_step [] (terms S)) =
      map (\<lambda>op. prune (as_tensor op)) (map snd (terms S))"
    by (simp add: E comp_def)
  with s have o: "map snd (foldl merge_step [] (terms S)) =
      map (\<lambda>op. prune (as_tensor op)) (ops S)"
    by (simp only:)
  from l len have "\<not> length (coeffs S) < length (operands S)" by simp
  with simplify_eq [OF len] show ?thesis
    by (simp add: c o set_data_free [OF free])
qed










section \<open>Cache invalidation\<close>

lemma simplify_returned_cache: "simplify S = (None, S') \<Longrightarrow> grouping_indices S' = None"
  by (auto simp: simplify_def split: if_splits prod.splits option.splits)

lemma simplify_raised_frame:
  "simplify S = (Some e, S') \<Longrightarrow>
     coeffs S' = coeffs S \<and> ops S' = ops S \<and> lc_wires S' = lc_wires S \<and>
     grouping_indices S' = grouping_indices S"
  by (auto simp: simplify_def split: if_splits prod.splits option.splits)

lemma simplify_fresh_raises:
  assumes "length (coeffs S) = length (ops S)"
    and "\<forall>t \<in> set (operands S). num_params (snd t) = 0"
    and "length (fst (simplify_loop (zip (coeffs S) (ops S)))) < length (operands S)"
  shows "fst (simplify S) = Some IndexError"
proof -
  obtain new_coeffs new_ops where
    l: "simplify_loop (zip (coeffs S) (ops S)) = (new_coeffs, new_ops)"
    by (cases "simplify_loop (zip (coeffs S) (ops S))")
  with assms show ?thesis
    by (simp add: simplify_def set_data_free)
qed

lemma imul_frame:
  "scalar_value a = Some x \<Longrightarrow>
     imul S a = Returned (S\<lparr> coeffs := map (\<lambda>c. x * c) (coeffs S) \<rparr>)"
  by (simp add: imul_def)

text \<open>
  Claim C4. \<open>simplify\<close> should always leave the grouping cache absent, while in-place
  multiplication by an int or a float leaves the operands and the cache as they are. The
  second half holds (lemma \<open>imul_frame\<close>), and \<open>simplify\<close> does clear the cache whenever it
  returns (lemma \<open>simplify_returned_cache\<close>). But on the store of the two terms 1 X(0) and
  1 X(0), built with its grouping, \<open>simplify\<close> merges the two terms, the assignment to
  \<^verbatim>\<open>data\<close> that precedes the reset of the cache raises an \<open>IndexError\<close> at the second term of
  the generator, and the cache is left as it was.
\<close>

theorem C4_failing_input:
  "LinearCombination_init [1, 1] [Atomic (PauliX 0), Atomic (PauliX 0)] False (Some one_group) =
     Inr doubled_store \<and>
   grouping_indices doubled_store = Some [[0, 1]] \<and>
   simplify doubled_store = (Some IndexError, doubled_store\<lparr> operands := [] \<rparr>) \<and>
   grouping_indices (snd (simplify doubled_store)) = Some [[0, 1]] \<and>
   simplify_loop (zip (coeffs doubled_store) (ops doubled_store)) = ([2], [Atomic (PauliX 0)])"
  by code_simp

section \<open>Arithmetic and comparison\<close>

text \<open>
  Claim C10, as amended. For a store with at least one term and as many coefficients as
  operands, \<open>S * a\<close> with an int or a float \<open>a\<close> returns a new store, built by the
  constructor without simplification: its coefficients are \<open>a\<close> times those of \<open>S\<close>,
  position by position, its operands are those of \<open>S\<close>, its wires are computed afresh, its
  grouping cache is absent and its generator holds all its terms. Any other operand gives
  \<^verbatim>\<open>NotImplemented\<close>. (\<open>mul\<close> is a function of \<open>S\<close>: the store \<open>S\<close> itself is not assigned to.)
\<close>

theorem C10_mul:
  assumes "length (coeffs S) = length (ops S)" and "ops S \<noteq> []"
  shows "mul S (IntArg i) =
           Returned \<lparr> coeffs = map (\<lambda>c. of_int i * c) (coeffs S), ops = ops S,
                      lc_wires = all_wires (map op_wires (ops S)) True,
                      grouping_indices = None,
                      operands = zip (map (\<lambda>c. of_int i * c) (coeffs S)) (ops S) \<rparr> \<and>
         mul S (FloatArg x) =
           Returned \<lparr> coeffs = map (\<lambda>c. x * c) (coeffs S), ops = ops S,
                      lc_wires = all_wires (map op_wires (ops S)) True,
                      grouping_indices = None,
                      operands = zip (map (\<lambda>c. x * c) (coeffs S)) (ops S) \<rparr> \<and>
         mul S OtherArg = NotImplemented"
  using assms by (simp add: mul_def dot_def LinearCombination_init_def)

theorem C10_mul_witness:
  "length (coeffs scenario3) = length (ops scenario3) \<and> ops scenario3 \<noteq> [] \<and>
   mul scenario3 (IntArg 2) =
     Returned \<lparr> coeffs = [2, 4, 6],
                ops = [Atomic (PauliX 0), Atomic (PauliX 1), Atomic (PauliZ 0)],
                lc_wires = [0, 1], grouping_indices = None,
                operands = [(2, Atomic (PauliX 0)), (4, Atomic (PauliX 1)),
                            (6, Atomic (PauliZ 0))] \<rparr> \<and>
   mul scenario3 (FloatArg (1 / 2)) =
     Returned \<lparr> coeffs = [1 / 2, 1, 3 / 2],
                ops = [Atomic (PauliX 0), Atomic (PauliX 1), Atomic (PauliZ 0)],
                lc_wires = [0, 1], grouping_indices = None,
                operands = [(1 / 2, Atomic (PauliX 0)), (1, Atomic (PauliX 1)),
                            (3 / 2, Atomic (PauliZ 0))] \<rparr> \<and>
   mul scenario3 OtherArg = NotImplemented"
proof -
  have h: "length (coeffs scenario3) = length (ops scenario3)"
    by (simp add: scenario3_def)
  have n: "ops scenario3 \<noteq> []"
    by (simp add: scenario3_def)
  have w: "all_wires (map op_wires (ops scenario3)) True = [0, 1]"
    by code_simp
  from C10_mul [OF h n, of 2 "1 / 2"] h n w show ?thesis
    by (simp add: scenario3_def)
qed

text \<open>
  The claim as stated fails on the code: the product is not simplified. Twice the store
  with the terms 1 X(0) and 1 X(0) has the terms 2 X(0) and 2 X(0), which the loop of
  \<open>simplify\<close> would merge.
\<close>

theorem C10_counterexample:
  "mul doubled_store (IntArg 2) =
     Returned \<lparr> coeffs = [2, 2], ops = [Atomic (PauliX 0), Atomic (PauliX 0)], lc_wires = [0],
                grouping_indices = None,
                operands = [(2, Atomic (PauliX 0)), (2, Atomic (PauliX 0))] \<rparr> \<and>
   \<not> is_simplified \<lparr> coeffs = [2, 2], ops = [Atomic (PauliX 0), Atomic (PauliX 0)],
                      lc_wires = [0], grouping_indices = None,
                      operands = [(2, Atomic (PauliX 0)), (2, Atomic (PauliX 0))] \<rparr> \<and>
   simplify_loop (zip [2, 2] [Atomic (PauliX 0), Atomic (PauliX 0)]) = ([4], [Atomic (PauliX 0)])"
  by code_simp




lemma div_mod_row:
  "j < n \<Longrightarrow> (i * n + j) div n = i \<and> (i * n + j) mod n = (j::nat)"
  by (cases "n = 0") simp_all

lemma kron_coeffs_product:
  "kron_coeffs c1 c2 = map (\<lambda>p. fst p * snd p) (List.product c1 c2)"
  by (induction c1) (simp_all add: kron_coeffs_def comp_def)

lemma length_kron_coeffs: "length (kron_coeffs c1 c2) = length c1 * length c2"
  by (simp add: kron_coeffs_product)

lemma kron_coeffs_nth:
  assumes "i < length c1" "j < length c2"
  shows "kron_coeffs c1 c2 ! (i * length c2 + j) = c1 ! i * c2 ! j"
proof -
  have "i * length c2 + j < length c1 * length c2"
  proof -
    have "i * length c2 + j < i * length c2 + length c2" using assms(2) by simp
    also have "\<dots> = Suc i * length c2" by simp
    also have "\<dots> \<le> length c1 * length c2" using assms(1) by (intro mult_le_mono1) simp
    finally show ?thesis .
  qed
  with assms(2) div_mod_row [of j "length c2" i] show ?thesis
    by (simp add: kron_coeffs_product product_nth)
qed

lemma tensor_pairs_nth:
  assumes "i < length o1" "j < length o2"
  shows "map (\<lambda>t. tensor (fst t) (snd t)) (List.product o1 o2) ! (i * length o2 + j) =
         tensor (o1 ! i) (o2 ! j)"
proof -
  have "i * length o2 + j < length o1 * length o2"
  proof -
    have "i * length o2 + j < i * length o2 + length o2" using assms(2) by simp
    also have "\<dots> = Suc i * length o2" by simp
    also have "\<dots> \<le> length o1 * length o2" using assms(1) by (intro mult_le_mono1) simp
    finally show ?thesis .
  qed
  with assms(2) div_mod_row [of j "length o2" i] show ?thesis
    by (simp add: product_nth)
qed

lemma shared_wires_empty: "shared_wires ws1 ws2 = [] \<longleftrightarrow> set ws1 \<inter> set ws2 = {}"
  by (auto simp: shared_wires_def filter_empty_conv)

lemma matmul_shared_wires:
  "set (lc_wires A) \<inter> set (lc_wires B) \<noteq> {} \<Longrightarrow> matmul A (LC B) = Raised ValueError"
proof -
  assume "set (lc_wires A) \<inter> set (lc_wires B) \<noteq> {}"
  then have "shared_wires (lc_wires A) (lc_wires B) \<noteq> []"
    by (simp add: shared_wires_empty)
  then show ?thesis
    by (simp add: matmul_def)
qed

lemma matmul_disjoint:
  assumes "set (lc_wires A) \<inter> set (lc_wires B) = {}"
  shows "matmul A (LC B) =
     of_sum (LinearCombination_init (kron_coeffs (coeffs A) (coeffs B))
               (map (\<lambda>t. tensor (fst t) (snd t)) (List.product (ops A) (ops B))) True None)"
proof -
  from assms have "shared_wires (lc_wires A) (lc_wires B) = []"
    by (simp add: shared_wires_empty)
  then show ?thesis
    by (simp add: matmul_def dot_def)
qed

lemma matmul_example:
  "matmul storeX0 (LC storeZ0) = Raised ValueError \<and>
   matmul storeA (LC storeB) =
     Returned
       \<lparr> coeffs = [10, 14, 15, 21],
         ops = [Tensor (PauliX 0) [PauliY 1], Tensor (PauliX 0) [PauliZ 2],
                Tensor (PauliZ 0) [PauliY 1], Tensor (PauliZ 0) [PauliZ 2]],
         lc_wires = [0, 1, 2], grouping_indices = None, operands = [] \<rparr>"
  by code_simp

text \<open>
  Claim C5. The tensor product of two stores should raise a \<open>ValueError\<close> when their wire
  sets share a label, and otherwise be the simplified store of the Kronecker product of
  the coefficient vectors and of the pairwise tensors of the operands. The first half
  holds (lemma \<open>matmul_shared_wires\<close>), and so does the second when no two of the pairwise
  tensors are structurally equal (\<open>matmul_example\<close>). But the store of the terms 1 X(0) and
  1 X(0) and the store of the term 1 Y(1) act on the wires 0 and 1, the Kronecker product
  of their coefficients is 1, 1 on the operand X(0)@Y(1) twice, which simplifies to the
  single term 2 X(0)@Y(1), and the call does not return this store: the constructor's
  call of \<open>simplify\<close> raises an \<open>IndexError\<close> in its assignment to \<^verbatim>\<open>data\<close>.
\<close>

theorem C5_failing_input:
  "set (lc_wires doubled_store) \<inter> set (lc_wires storeY1) = {} \<and>
   matmul doubled_store (LC storeY1) = Raised IndexError \<and>
   kron_coeffs (coeffs doubled_store) (coeffs storeY1) = [1, 1] \<and>
   map (\<lambda>t. tensor (fst t) (snd t)) (List.product (ops doubled_store) (ops storeY1)) =
     [Tensor (PauliX 0) [PauliY 1], Tensor (PauliX 0) [PauliY 1]] \<and>
   simplify_loop (zip [1, 1] [Tensor (PauliX 0) [PauliY 1], Tensor (PauliX 0) [PauliY 1]]) =
     ([2], [Tensor (PauliX 0) [PauliY 1]])"
  by code_simp

section \<open>The grouping engine\<close>

lemma find_identical_Some:
  "find_identical w rs = Some i \<Longrightarrow> i < length rs \<and> identity_key (rs ! i) = identity_key w"
proof (induction rs arbitrary: i)
  case Nil
  then show ?case by simp
next
  case (Cons a rs)
  show ?case
  proof (cases "are_identical_pauli_words w a")
    case True
    with Cons.prems show ?thesis
      by (auto simp: are_identical_pauli_words_def structurally_equal_def)
  next
    case False
    with Cons.prems obtain i' where i': "find_identical w rs = Some i'" "i = Suc i'"
      by auto
    from Cons.IH [OF i'(1)] i'(2) show ?thesis by simp
  qed
qed

lemma find_identical_None:
  "find_identical w rs = None \<longleftrightarrow> (\<forall>x \<in> set rs. identity_key x \<noteq> identity_key w)"
  by (induction rs) (auto simp: are_identical_pauli_words_def structurally_equal_def)

lemma mset_del_at: "i < length xs \<Longrightarrow> mset xs = add_mset (xs ! i) (mset (del_at i xs))"
proof -
  assume "i < length xs"
  then have "xs = take i xs @ xs ! i # drop (Suc i) xs"
    by (rule id_take_nth_drop)
  then have "mset xs = mset (take i xs @ xs ! i # drop (Suc i) xs)"
    by simp
  then show ?thesis
    by (simp add: del_at_def)
qed

lemma match_word_found:
  assumes len: "length rs = length av"
    and mem: "identity_key w \<in># mset (map identity_key rs)"
  shows "\<exists>rs' av' a. match_word (rs, av, grp) w = (rs', av', grp @ [a]) \<and>
           length rs' = length av' \<and>
           mset (map identity_key rs) = add_mset (identity_key w) (mset (map identity_key rs')) \<and>
           mset av = add_mset a (mset av')"
proof (cases "find_identical w rs")
  case None
  with mem show ?thesis
    by (auto simp: find_identical_None)
next
  case (Some i)
  from find_identical_Some [OF Some] have i: "i < length rs" "identity_key (rs ! i) = identity_key w"
    by simp_all
  have k: "mset (map identity_key rs) = add_mset (identity_key w) (mset (map identity_key (del_at i rs)))"
    using mset_del_at [of i "map identity_key rs"] i by (simp add: del_at_map)
  have a: "mset av = add_mset (av ! i) (mset (del_at i av))"
    using i(1) len by (intro mset_del_at) simp
  have l: "length (del_at i rs) = length (del_at i av)"
    using i(1) len by (simp add: length_del_at)
  show ?thesis
    using Some k a l by simp
qed

lemma match_words:
  assumes "length rs = length av"
    and "mset (map identity_key ws) \<subseteq># mset (map identity_key rs)"
  shows "\<exists>rs' av' grp'. foldl match_word (rs, av, grp) ws = (rs', av', grp') \<and>
           length rs' = length av' \<and>
           mset (map identity_key rs) = mset (map identity_key ws) + mset (map identity_key rs') \<and>
           mset av + mset grp = mset av' + mset grp'"
  using assms
proof (induction ws arbitrary: rs av grp)
  case Nil
  then show ?case by simp
next
  case (Cons w ws)
  from Cons.prems(2) have mem: "identity_key w \<in># mset (map identity_key rs)"
    by (simp add: insert_subset_eq_iff)
  from match_word_found [OF Cons.prems(1) mem, of grp] obtain rs1 av1 a where
    st: "match_word (rs, av, grp) w = (rs1, av1, grp @ [a])"
    and len1: "length rs1 = length av1"
    and k1: "mset (map identity_key rs) = add_mset (identity_key w) (mset (map identity_key rs1))"
    and a1: "mset av = add_mset a (mset av1)"
    by blast
  from Cons.prems(2) have sub: "mset (map identity_key ws) \<subseteq># mset (map identity_key rs1)"
    unfolding k1 by simp
  from Cons.IH [OF len1 sub, of "grp @ [a]"] obtain rs' av' grp' where
    r: "foldl match_word (rs1, av1, grp @ [a]) ws = (rs', av', grp')"
    "length rs' = length av'"
    "mset (map identity_key rs1) = mset (map identity_key ws) + mset (map identity_key rs')"
    "mset av1 + mset (grp @ [a]) = mset av' + mset grp'"
    by blast
  have "foldl match_word (rs, av, grp) (w # ws) = (rs', av', grp')"
    using st r(1) by simp
  moreover have "mset (map identity_key rs) =
      mset (map identity_key (w # ws)) + mset (map identity_key rs')"
    unfolding k1 r(3) by simp
  moreover have "mset av + mset grp = mset av' + mset grp'"
    using r(4) unfolding a1 by simp
  ultimately show ?case
    using r(2) by blast
qed

lemma grouping_loop_covers:
  assumes "length rs = length av"
    and "mset (map identity_key (concat groups)) \<subseteq># mset (map identity_key rs)"
  shows "\<exists>rs' av'. length rs' = length av' \<and>
           mset (map identity_key rs) =
             mset (map identity_key (concat groups)) + mset (map identity_key rs') \<and>
           mset av + mset (concat indices) =
             mset av' + mset (concat (grouping_loop groups (rs, av) indices)) \<and>
           length (grouping_loop groups (rs, av) indices) = length indices + length groups"
  using assms
proof (induction groups arbitrary: rs av indices)
  case Nil
  then show ?case by (intro exI [of _ rs] exI [of _ av]) simp
next
  case (Cons part groups)
  from Cons.prems(2) have sub1: "mset (map identity_key part) \<subseteq># mset (map identity_key rs)"
    by (simp add: subset_mset.add_increasing2 mset_subset_eq_add_left
        subset_mset.order_trans [OF mset_subset_eq_add_left])
  from match_words [OF Cons.prems(1) sub1, of "[]"] obtain rs1 av1 grp where
    m: "foldl match_word (rs, av, []) part = (rs1, av1, grp)"
    "length rs1 = length av1"
    "mset (map identity_key rs) = mset (map identity_key part) + mset (map identity_key rs1)"
    "mset av + mset [] = mset av1 + mset grp"
    by blast
  from Cons.prems(2) have sub2:
    "mset (map identity_key (concat groups)) \<subseteq># mset (map identity_key rs1)"
    unfolding m(3) by simp
  from Cons.IH [OF m(2) sub2, of "indices @ [grp]"] obtain rs' av' where
    r: "length rs' = length av'"
    "mset (map identity_key rs1) =
       mset (map identity_key (concat groups)) + mset (map identity_key rs')"
    "mset av1 + mset (concat (indices @ [grp])) =
       mset av' + mset (concat (grouping_loop groups (rs1, av1) (indices @ [grp])))"
    "length (grouping_loop groups (rs1, av1) (indices @ [grp])) =
       length (indices @ [grp]) + length groups"
    by blast
  have unf: "grouping_loop (part # groups) (rs, av) indices =
      grouping_loop groups (rs1, av1) (indices @ [grp])"
    using m(1) by simp
  have "mset (map identity_key rs) =
      mset (map identity_key (concat (part # groups))) + mset (map identity_key rs')"
    unfolding m(3) r(2) by simp
  moreover have "mset av + mset (concat indices) =
      mset av' + mset (concat (grouping_loop (part # groups) (rs, av) indices))"
  proof -
    have "mset av + mset (concat indices) = mset av1 + mset grp + mset (concat indices)"
      using m(4) by simp
    also have "\<dots> = mset av1 + mset (concat (indices @ [grp]))"
      by simp
    also note r(3)
    finally show ?thesis unfolding unf .
  qed
  moreover have "length (grouping_loop (part # groups) (rs, av) indices) =
      length indices + length (part # groups)"
    unfolding unf r(4) by simp
  ultimately show ?case
    using r(1) by blast
qed

lemma compute_grouping_indices_covers:
  assumes "mset (map identity_key (concat (group_ops op_list))) = mset (map identity_key op_list)"
  shows "sort (concat (compute_grouping_indices group_ops op_list)) = [0..<length op_list] \<and>
         distinct (concat (compute_grouping_indices group_ops op_list)) \<and>
         length (compute_grouping_indices group_ops op_list) = length (group_ops op_list)"
proof -
  let ?res = "grouping_loop (group_ops op_list) (op_list, [0..<length op_list]) []"
  have sub: "mset (map identity_key (concat (group_ops op_list))) \<subseteq>#
      mset (map identity_key op_list)"
    using assms by simp
  have len: "length op_list = length [0..<length op_list]" by simp
  from grouping_loop_covers [OF len sub, of "[]"] obtain rs' av' where
    r: "length rs' = length av'"
    "mset (map identity_key op_list) =
       mset (map identity_key (concat (group_ops op_list))) + mset (map identity_key rs')"
    "mset [0..<length op_list] + mset (concat ([] :: nat list list)) =
       mset av' + mset (concat ?res)"
    "length ?res = length ([] :: nat list list) + length (group_ops op_list)"
    by blast
  from r(2) assms have "mset (map identity_key rs') = {#}" by simp
  then have "rs' = []" by simp
  with r(1) have "av' = []" by simp
  with r(3) have m: "mset (concat ?res) = mset [0..<length op_list]" by simp
  then have "sort (concat ?res) = [0..<length op_list]"
    by (intro properties_for_sort) simp_all
  moreover from m have "distinct (concat ?res)"
    using mset_eq_imp_distinct_iff [of "concat ?res" "[0..<length op_list]"] by simp
  ultimately show ?thesis
    using r(4) by (simp add: compute_grouping_indices_def)
qed

text \<open>
  Claim C3. The partitioner \<^verbatim>\<open>group_ops\<close> is a parameter; what is asked of it is that the
  words of its groups, taken together, are the operand words it was given, each as often
  as it was given (up to structural identity). Then the grouping that \<open>compute_grouping\<close>
  stores, and the one the constructor stores when a grouping is requested, has one index
  tuple for each group, and the sorted concatenation of the tuples is \<open>0, \<dots>, N - 1\<close>: every
  index exactly once, also when operand words repeat.
\<close>

theorem C3_grouping_covers:
  "(mset (map identity_key (concat (group_ops (ops S)))) = mset (map identity_key (ops S)) \<longrightarrow>
      (\<exists>gi. grouping_indices (compute_grouping group_ops S) = Some gi \<and>
            sort (concat gi) = [0..<length (ops S)] \<and> distinct (concat gi) \<and>
            length gi = length (group_ops (ops S)))) \<and>
   (LinearCombination_init cs os simplify_flag (Some group_ops) = Inr S' \<and>
    mset (map identity_key (concat (group_ops (ops S')))) = mset (map identity_key (ops S')) \<longrightarrow>
      (\<exists>gi. grouping_indices S' = Some gi \<and>
            sort (concat gi) = [0..<length (ops S')] \<and> distinct (concat gi) \<and>
            length gi = length (group_ops (ops S'))))"
proof (intro conjI impI)
  assume "mset (map identity_key (concat (group_ops (ops S)))) = mset (map identity_key (ops S))"
  with compute_grouping_indices_covers [of group_ops "ops S"]
  show "\<exists>gi. grouping_indices (compute_grouping group_ops S) = Some gi \<and>
            sort (concat gi) = [0..<length (ops S)] \<and> distinct (concat gi) \<and>
            length gi = length (group_ops (ops S))"
    by (simp add: compute_grouping_def)
next
  assume h: "LinearCombination_init cs os simplify_flag (Some group_ops) = Inr S' \<and>
    mset (map identity_key (concat (group_ops (ops S')))) = mset (map identity_key (ops S'))"
  then obtain S1 where S1: "S' = compute_grouping group_ops S1"
    by (auto simp: LinearCombination_init_def Let_def split: if_splits prod.splits option.splits)
  then have o: "ops S' = ops S1" by (simp add: compute_grouping_def)
  from h have "mset (map identity_key (concat (group_ops (ops S1)))) = mset (map identity_key (ops S1))"
    by (simp add: o)
  with compute_grouping_indices_covers [of group_ops "ops S1"]
  show "\<exists>gi. grouping_indices S' = Some gi \<and>
            sort (concat gi) = [0..<length (ops S')] \<and> distinct (concat gi) \<and>
            length gi = length (group_ops (ops S'))"
    by (simp add: S1 compute_grouping_def)
qed

theorem C3_grouping_covers_witness:
  "mset (map identity_key (concat (repeated_groups (ops repeated_store)))) =
     mset (map identity_key (ops repeated_store)) \<and>
   grouping_indices (compute_grouping repeated_groups repeated_store) = Some [[0, 2], [1]] \<and>
   sort (concat [[0, 2], [1]]) = [0..<length (ops repeated_store)] \<and>
   LinearCombination_init [1, 2, 3] [Atomic (PauliX 0), Atomic (PauliX 1), Atomic (PauliZ 0)] False
     (Some scenario3_groups) = Inr scenario3 \<and>
   mset (map identity_key (concat (scenario3_groups (ops scenario3)))) =
     mset (map identity_key (ops scenario3)) \<and>
   grouping_indices scenario3 = Some [[0, 1], [2]] \<and>
   sort (concat [[0, 1], [2]]) = [0..<length (ops scenario3)]"
proof -
  have h1: "mset (map identity_key (concat (repeated_groups (ops repeated_store)))) =
     mset (map identity_key (ops repeated_store))"
    by (simp add: repeated_groups_def repeated_store_def)
  have h2: "grouping_indices (compute_grouping repeated_groups repeated_store) = Some [[0, 2], [1]]"
    by code_simp
  have h3: "LinearCombination_init [1, 2, 3]
      [Atomic (PauliX 0), Atomic (PauliX 1), Atomic (PauliZ 0)] False (Some scenario3_groups) =
      Inr scenario3"
    by code_simp
  have h4: "mset (map identity_key (concat (scenario3_groups (ops scenario3)))) =
     mset (map identity_key (ops scenario3))"
    by (simp add: scenario3_groups_def scenario3_def)
  have h5: "grouping_indices scenario3 = Some [[0, 1], [2]]"
    by (simp add: scenario3_def)
  from C3_grouping_covers [of repeated_groups repeated_store] h1 h2
  have r1: "sort (concat [[0, 2], [1]]) = [0..<length (ops repeated_store)]"
    by auto
  from C3_grouping_covers [of scenario3_groups _ "[1, 2, 3]"
      "[Atomic (PauliX 0), Atomic (PauliX 1), Atomic (PauliZ 0)]" False scenario3]
    h3 h4 h5
  have r2: "sort (concat [[0, 1], [2]]) = [0..<length (ops scenario3)]"
    by auto
  from h1 h2 h3 h4 h5 r1 r2 show ?thesis by simp
qed

section \<open>Matrix assembly: the dense and the sparse path\<close>

lemma get_data_consumes: "operands (snd (get_data S)) = []"
  by (simp add: get_data_def)

lemma sparse_matrix_consumes: "operands (snd (sparse_matrix wire_order S)) = []"
  by (simp add: sparse_matrix_def get_data_def Let_def)

lemma sparse_matrix_second_read:
  "fst (sparse_matrix wire_order (snd (sparse_matrix wire_order' S))) =
     Inr (zeros (2 ^ length (case wire_order of None \<Rightarrow> lc_wires S | Some w \<Rightarrow> w)))"
  by (cases wire_order) (simp_all add: sparse_matrix_def get_data_def Let_def add_sum_def)

text \<open>
  The sparse path takes its coefficients from the generator and not from \<^verbatim>\<open>_coeffs\<close>: after
  an in-place multiplication by 2 of the store of the term 1 X(0), the dense matrix is
  twice the matrix of X(0) and the sparse matrix is the matrix of X(0) itself.
\<close>

lemma sparse_matrix_after_imul:
  "imul storeX0 (IntArg 2) = Returned (storeX0\<lparr> coeffs := [2] \<rparr>) \<and>
   map_sum id to_dense (matrix None (storeX0\<lparr> coeffs := [2] \<rparr>)) = Inr [[0, 2], [2, 0]] \<and>
   map_sum id to_dense (fst (sparse_matrix None (storeX0\<lparr> coeffs := [2] \<rparr>))) =
     Inr [[0, 1], [1, 0]]"
  by code_simp

lemma scenario5_matrices:
  "map_sum id to_dense (fst (sparse_matrix None scenario5)) =
     Inr [[1, 0, 45 / 100 * \<i>, 0], [0, - 1, 0, - (45 / 100) * \<i>],
          [- (45 / 100) * \<i>, 0, - 1, 0], [0, 45 / 100 * \<i>, 0, 1]] \<and>
   map_sum id to_dense (matrix None scenario5) =
     Inr [[1, 0, 45 / 100 * \<i>, 0], [0, - 1, 0, - (45 / 100) * \<i>],
          [- (45 / 100) * \<i>, 0, - 1, 0], [0, 45 / 100 * \<i>, 0, 1]]"
  by code_simp

text \<open>
  Claim C1. For a store whose operands are tensor products of single-qubit Pauli-like
  factors the dense and the sparse assembly should give the same matrix. They do on
  scenario 5 (lemma \<open>scenario5_matrices\<close>). But for the store of the one term 1 X(0)@Z(0),
  whose two factors act on the same wire, \<^verbatim>\<open>sparse_matrix\<close> looks up the one matrix
  \<open>obs[op.wires.index(0)]\<close>, which is that of X, and drops the factor Z: it returns the
  matrix of X, where the dense path has the product of the matrices of X and Z.
\<close>

theorem C1_failing_input:
  "LinearCombination_init [1] [Tensor (PauliX 0) [PauliZ 0]] False None = Inr overlap_store \<and>
   map_sum id to_dense (fst (sparse_matrix None overlap_store)) = Inr [[0, 1], [1, 0]] \<and>
   map_sum id to_dense (matrix None overlap_store) = Inr [[0, - 1], [1, 0]]"
  by code_simp

text \<open>
  Claim C8. With a wire ordering that omits a wire of the store, both assemblies should
  fail with a \<open>ValueError\<close>. The dense path does. But for the store of the one term
  1 X(0)@Z(1) and the ordering that lists the wire 0 only, \<^verbatim>\<open>sparse_matrix\<close> walks the listed
  wires, never looks at the wire 1, and returns the 2 by 2 matrix of X.
\<close>

theorem C8_failing_input:
  "LinearCombination_init [1] [Tensor (PauliX 0) [PauliZ 1]] False None = Inr two_wire_store \<and>
   \<not> set (lc_wires two_wire_store) \<subseteq> set [0] \<and>
   map_sum id to_dense (fst (sparse_matrix (Some [0]) two_wire_store)) = Inr [[0, 1], [1, 0]] \<and>
   map_sum id to_dense (matrix (Some [0]) two_wire_store) = Inl ValueError"
  by code_simp


end
